theory Spec2Isabelle
  imports Complex_Main "HOL-Library.Sublist"
begin

section \<open>JavaScript strings\<close>

text \<open>
  A JavaScript string is a sequence of UTF-16 code units. The model is \<^typ>\<open>string\<close>:
  every \<^typ>\<open>char\<close> stands for the code unit with the same number, so the strings of the
  model are the JavaScript strings whose code units are all below 256 (ASCII and Latin-1).
  \<open>length\<close> counts code units, as \<open>String.prototype.length\<close> does.
\<close>

definition code_unit :: "char \<Rightarrow> nat" where
  "code_unit c = of_char c"

text \<open>
  \<open>String.prototype.toLowerCase\<close> on one code unit below 256: \<open>A\<close>..\<open>Z\<close> and the Latin-1
  capitals U+00C0..U+00DE (without the multiplication sign U+00D7) move up by 32.
\<close>

definition toLowerCase_char :: "char \<Rightarrow> char" where
  "toLowerCase_char c =
     (let n = code_unit c
      in if (65 \<le> n \<and> n \<le> 90) \<or> (192 \<le> n \<and> n \<le> 222 \<and> n \<noteq> 215)
         then char_of (n + 32) else c)"

definition toLowerCase :: "string \<Rightarrow> string" where
  "toLowerCase s = map toLowerCase_char s"

text \<open>
  The code units that \<open>String.prototype.trim\<close> strips and that \<open>\s\<close> matches (WhiteSpace and
  LineTerminator of ECMAScript), below 256: TAB, LF, VT, FF, CR, SPACE and NBSP.
\<close>

definition is_white_space :: "char \<Rightarrow> bool" where
  "is_white_space c = (code_unit c \<in> {9, 10, 11, 12, 13, 32, 160})"

definition trim :: "string \<Rightarrow> string" where
  "trim s = rev (dropWhile is_white_space (rev (dropWhile is_white_space s)))"

definition startsWith :: "string \<Rightarrow> string \<Rightarrow> bool" where
  "startsWith s p = prefix p s"

definition endsWith :: "string \<Rightarrow> string \<Rightarrow> bool" where
  "endsWith s p = suffix p s"

definition str_includes :: "string \<Rightarrow> char \<Rightarrow> bool" where
  "str_includes s c = (c \<in> set s)"

section \<open>Regular expressions\<close>

text \<open>
  The regular expressions of the source use literal characters, the classes \<open>.\<close>, \<open>\s\<close>, \<open>\d\<close>
  and digit ranges, sequence, alternation, \<open>?\<close>, \<open>*\<close>, \<open>+\<close> and \<open>{n}\<close> on a class, the word
  boundary \<open>\b\<close> and the anchor \<open>^\<close>. A matcher state is the code unit before the current
  position (\<open>None\<close> at the start of the input) and the rest of the input; \<open>run\<close> returns every
  state in which a match of the expression can end. \<open>RegExp.prototype.test\<close> (no \<open>g\<close> or
  \<open>y\<close> flag) asks whether a match exists from some start position.
\<close>

datatype cclass = Lit char | Dot | Space | Digit | Range char char

text \<open>
  Canonicalize of ECMAScript for the flag \<open>i\<close> (without \<open>u\<close>): the upper-case form of a
  code unit when that is a single code unit. Below 256 it moves \<open>a\<close>..\<open>z\<close> and
  U+00E0..U+00FE (without the division sign U+00F7) down by 32; the upper-case forms of
  U+00B5 and U+00FF lie outside Latin-1 and equal no other canonical form of the model.
\<close>

definition canonicalize :: "char \<Rightarrow> char" where
  "canonicalize c =
     (let n = code_unit c
      in if (97 \<le> n \<and> n \<le> 122) \<or> (224 \<le> n \<and> n \<le> 254 \<and> n \<noteq> 247)
         then char_of (n - 32) else c)"

definition is_line_terminator :: "char \<Rightarrow> bool" where
  "is_line_terminator c = (code_unit c \<in> {10, 13})"

definition is_word_char :: "char \<Rightarrow> bool" where
  "is_word_char c =
     (let n = code_unit c
      in (48 \<le> n \<and> n \<le> 57) \<or> (65 \<le> n \<and> n \<le> 90) \<or> n = 95 \<or> (97 \<le> n \<and> n \<le> 122))"

text \<open>The ranges of the source are digit ranges in an expression without the flag \<open>i\<close>.\<close>

fun cclass_matches :: "bool \<Rightarrow> cclass \<Rightarrow> char \<Rightarrow> bool" where
  "cclass_matches ic (Lit a) c = (if ic then canonicalize c = canonicalize a else c = a)"
| "cclass_matches ic Dot c = (\<not> is_line_terminator c)"
| "cclass_matches ic Space c = is_white_space c"
| "cclass_matches ic Digit c = (48 \<le> code_unit c \<and> code_unit c \<le> 57)"
| "cclass_matches ic (Range a b) c = (code_unit a \<le> code_unit c \<and> code_unit c \<le> code_unit b)"

datatype regex =
    Chars string
  | Cls cclass
  | Seq regex regex
  | Alt regex regex
  | Opt regex
  | Star cclass
  | Plus cclass
  | Times nat cclass
  | WordBoundary
  | Bol

type_synonym mstate = "char option \<times> string"

fun match_chars :: "bool \<Rightarrow> string \<Rightarrow> char option \<Rightarrow> string \<Rightarrow> mstate list" where
  "match_chars ic [] p s = [(p, s)]"
| "match_chars ic (a # as) p [] = []"
| "match_chars ic (a # as) p (c # cs) =
     (if cclass_matches ic (Lit a) c then match_chars ic as (Some c) cs else [])"

fun match_cls :: "bool \<Rightarrow> cclass \<Rightarrow> mstate \<Rightarrow> mstate list" where
  "match_cls ic k (p, []) = []"
| "match_cls ic k (p, c # cs) = (if cclass_matches ic k c then [(Some c, cs)] else [])"

text \<open>Greedy repetition: the longest run first, then each shorter one.\<close>

fun match_star :: "bool \<Rightarrow> cclass \<Rightarrow> char option \<Rightarrow> string \<Rightarrow> mstate list" where
  "match_star ic k p [] = [(p, [])]"
| "match_star ic k p (c # cs) =
     (if cclass_matches ic k c then match_star ic k (Some c) cs else []) @ [(p, c # cs)]"

fun match_times :: "bool \<Rightarrow> cclass \<Rightarrow> nat \<Rightarrow> mstate \<Rightarrow> mstate list" where
  "match_times ic k 0 st = [st]"
| "match_times ic k (Suc n) st = concat (map (match_times ic k n) (match_cls ic k st))"

definition at_word_boundary :: "mstate \<Rightarrow> bool" where
  "at_word_boundary st =
     (let word_left = (case fst st of None \<Rightarrow> False | Some c \<Rightarrow> is_word_char c);
          word_right = (case snd st of [] \<Rightarrow> False | c # _ \<Rightarrow> is_word_char c)
      in word_left \<noteq> word_right)"

fun run :: "bool \<Rightarrow> regex \<Rightarrow> mstate \<Rightarrow> mstate list" where
  "run ic (Chars as) st = match_chars ic as (fst st) (snd st)"
| "run ic (Cls k) st = match_cls ic k st"
| "run ic (Seq a b) st = concat (map (run ic b) (run ic a st))"
| "run ic (Alt a b) st = run ic a st @ run ic b st"
| "run ic (Opt a) st = run ic a st @ [st]"
| "run ic (Star k) st = match_star ic k (fst st) (snd st)"
| "run ic (Plus k) st = concat (map (\<lambda>t. match_star ic k (fst t) (snd t)) (match_cls ic k st))"
| "run ic (Times n k) st = match_times ic k n st"
| "run ic WordBoundary st = (if at_word_boundary st then [st] else [])"
| "run ic Bol st = (if fst st = None then [st] else [])"

fun search :: "bool \<Rightarrow> regex \<Rightarrow> char option \<Rightarrow> string \<Rightarrow> bool" where
  "search ic r p [] = (run ic r (p, []) \<noteq> [])"
| "search ic r p (c # cs) = (run ic r (p, c # cs) \<noteq> [] \<or> search ic r (Some c) cs)"

text \<open>\<open>/r/.test(s)\<close> with \<open>ic = False\<close>, \<open>/r/i.test(s)\<close> with \<open>ic = True\<close>.\<close>

definition regex_test :: "bool \<Rightarrow> regex \<Rightarrow> string \<Rightarrow> bool" where
  "regex_test ic r s = search ic r None s"

definition cat :: "regex list \<Rightarrow> regex" where
  "cat rs = foldr Seq rs (Chars [])"

definition alts :: "regex \<Rightarrow> regex list \<Rightarrow> regex" where
  "alts r rs = foldl Alt r rs"

section \<open>Host safety classifier (external-link.ts)\<close>

text \<open>\<open>s.replace(/^\[/, '')\<close>: drops one opening bracket at the start.\<close>

definition strip_open_bracket :: "string \<Rightarrow> string" where
  "strip_open_bracket s = (case s of [] \<Rightarrow> [] | c # cs \<Rightarrow> if c = CHR ''['' then cs else s)"

text \<open>\<open>s.replace(/\]$/, '')\<close>: drops one closing bracket at the end.\<close>

definition strip_close_bracket :: "string \<Rightarrow> string" where
  "strip_close_bracket s = (if s \<noteq> [] \<and> last s = CHR '']'' then butlast s else s)"

text \<open>\<open>/^127\./\<close>, \<open>/^10\./\<close>, \<open>/^192\.168\./\<close>, \<open>/^169\.254\./\<close>\<close>

definition re_127 :: regex where "re_127 = Seq Bol (Chars ''127.'')"
definition re_10 :: regex where "re_10 = Seq Bol (Chars ''10.'')"
definition re_192_168 :: regex where "re_192_168 = Seq Bol (Chars ''192.168.'')"
definition re_169_254 :: regex where "re_169_254 = Seq Bol (Chars ''169.254.'')"

text \<open>\<open>/^172\.(1[6-9]|2\d|3[0-1])\./\<close>\<close>

definition re_172 :: regex where
  "re_172 =
     Seq Bol (Seq (Chars ''172.'')
       (Seq (Alt (Seq (Chars ''1'') (Cls (Range CHR ''6'' CHR ''9'')))
              (Alt (Seq (Chars ''2'') (Cls Digit))
                   (Seq (Chars ''3'') (Cls (Range CHR ''0'' CHR ''1'')))))
            (Chars ''.'')))"

text \<open>The part of \<open>re_172\<close> after \<open>^172\.\<close>, named for the proofs.\<close>

definition re_172_tail :: regex where
  "re_172_tail =
     Seq (Alt (Seq (Chars ''1'') (Cls (Range CHR ''6'' CHR ''9'')))
            (Alt (Seq (Chars ''2'') (Cls Digit))
                 (Seq (Chars ''3'') (Cls (Range CHR ''0'' CHR ''1'')))))
         (Chars ''.'')"

definition isPrivateOrLocalHost :: "string \<Rightarrow> bool" where
  "isPrivateOrLocalHost hostname =
     (let host = strip_close_bracket (strip_open_bracket (toLowerCase hostname))
      in if host = [] then True
         else if host = ''localhost'' \<or> host = ''0.0.0.0'' \<or> host = ''::'' \<or> host = ''::1''
                 \<or> endsWith host ''.localhost'' \<or> endsWith host ''.local''
                 \<or> endsWith host ''.internal''
         then True
         else if regex_test False re_127 host \<or> regex_test False re_10 host
                 \<or> regex_test False re_192_168 host \<or> regex_test False re_169_254 host
                 \<or> regex_test False re_172 host
         then True
         else if str_includes host CHR '':''
         then startsWith host ''fe80:'' \<or> startsWith host ''fc'' \<or> startsWith host ''fd''
         else False)"

text \<open>
  The claim's reading of the classifier: the textual prefixes of the private IPv4 ranges,
  \<open>172.16.\<close> through \<open>172.31.\<close> written out, and the disjunction of the listed cases.
\<close>

definition private_ipv4_prefixes :: "string list" where
  "private_ipv4_prefixes =
     [''127.'', ''10.'', ''192.168.'', ''169.254.'',
      ''172.16.'', ''172.17.'', ''172.18.'', ''172.19.'', ''172.20.'', ''172.21.'',
      ''172.22.'', ''172.23.'', ''172.24.'', ''172.25.'', ''172.26.'', ''172.27.'',
      ''172.28.'', ''172.29.'', ''172.30.'', ''172.31.'']"

definition private_or_local_spec :: "string \<Rightarrow> bool" where
  "private_or_local_spec h =
     (let host = strip_close_bracket (strip_open_bracket (toLowerCase h))
      in host = []
         \<or> host \<in> set [''localhost'', ''0.0.0.0'', ''::'', ''::1'']
         \<or> (\<exists>x \<in> set [''.localhost'', ''.local'', ''.internal'']. suffix x host)
         \<or> (\<exists>p \<in> set private_ipv4_prefixes. prefix p host)
         \<or> (CHR '':'' \<in> set host \<and> (\<exists>p \<in> set [''fe80:'', ''fc'', ''fd'']. prefix p host)))"

section \<open>The URL class of the platform\<close>

text \<open>
  \<open>new URL(s)\<close>, the properties \<open>protocol\<close> and \<open>hostname\<close>, \<open>searchParams.get\<close>,
  \<open>searchParams.has\<close>, \<open>searchParams.delete\<close> and \<open>toString()\<close> belong to the JavaScript
  platform, not to the repository. They are parameters of the model: a value of
  \<open>'u url_api\<close> gives each operation on URL objects of type \<open>'u\<close>. \<open>url_new\<close> returns
  \<open>None\<close> where the constructor throws a TypeError; \<open>sp_delete\<close>, which mutates the object,
  returns the updated object.
\<close>

record 'u url_api =
  url_new :: "string \<Rightarrow> 'u option"
  url_protocol :: "'u \<Rightarrow> string"
  url_hostname :: "'u \<Rightarrow> string"
  sp_get :: "'u \<Rightarrow> string \<Rightarrow> string option"
  sp_has :: "'u \<Rightarrow> string \<Rightarrow> bool"
  sp_delete :: "'u \<Rightarrow> string \<Rightarrow> 'u"
  url_toString :: "'u \<Rightarrow> string"

section \<open>Deep-link parser and router (external-link.ts)\<close>

datatype ExternalLinkTarget = TargetAuto | TargetYoutube | TargetUniversal
datatype ExternalLinkAction = DownloadNow | QueueOnly
datatype ExternalRouteTarget = RouteYoutube | RouteUniversal

text \<open>
  Modelled from the spec: the types \<open>Quality\<close>, \<open>AudioBitrate\<close> and
  \<open>ExternalEnqueueOptions\<close> of \<open>./types\<close>, which is not among the sources. They are unions
  of string literals, so the fields hold the strings the code stores; \<open>audioBitrate\<close> is
  \<open>None\<close> where the object has no such field.
\<close>

record ExternalEnqueueOptions =
  mediaType :: string
  quality :: string
  audioBitrate :: "string option"

record ExternalLinkRequest =
  raw :: string
  url :: string
  target :: ExternalLinkTarget
  action :: ExternalLinkAction
  enqueueOptions :: ExternalEnqueueOptions
  source :: "string option"

definition MAX_EXTERNAL_DEEPLINK_LENGTH :: nat where
  "MAX_EXTERNAL_DEEPLINK_LENGTH = 4096"

definition TRUSTED_EXTERNAL_SOURCES :: "string list" where
  "TRUSTED_EXTERNAL_SOURCES = [''ext-chromium'', ''ext-firefox'']"

definition normalizeExternalSource :: "string option \<Rightarrow> string option" where
  "normalizeExternalSource src =
     (case src of
        None \<Rightarrow> None
      | Some s \<Rightarrow>
          (let normalized = toLowerCase (trim s)
           in if normalized = [] then None
              else if normalized \<in> set TRUSTED_EXTERNAL_SOURCES then Some normalized else None))"

definition isTrustedExternalSource :: "string option \<Rightarrow> bool" where
  "isTrustedExternalSource src =
     (case src of None \<Rightarrow> False | Some s \<Rightarrow> s \<noteq> [] \<and> s \<in> set TRUSTED_EXTERNAL_SOURCES)"

definition isPublicHttpUrl :: "'u url_api \<Rightarrow> string \<Rightarrow> bool" where
  "isPublicHttpUrl api u =
     (case url_new api u of
        None \<Rightarrow> False
      | Some parsed \<Rightarrow>
          if url_protocol api parsed \<noteq> ''http:'' \<and> url_protocol api parsed \<noteq> ''https:''
          then False
          else \<not> isPrivateOrLocalHost (url_hostname api parsed))"

definition allowedVideoQualities :: "string list" where
  "allowedVideoQualities = [''best'', ''8k'', ''4k'', ''2k'', ''1080'', ''720'', ''480'', ''360'']"

text \<open>\<open>x || ''\<close> on \<open>string | null\<close>: \<open>null\<close> and the empty string give the empty string.\<close>

definition or_empty :: "string option \<Rightarrow> string" where
  "or_empty x = (case x of None \<Rightarrow> [] | Some v \<Rightarrow> v)"

definition parseEnqueueOptions :: "'u url_api \<Rightarrow> 'u \<Rightarrow> ExternalEnqueueOptions" where
  "parseEnqueueOptions api parsed =
     (let media = (if sp_get api parsed ''media'' = Some ''audio'' then ''audio'' else ''video'');
          qualityParam = or_empty (sp_get api parsed ''quality'')
      in if media = ''audio''
         then \<lparr>mediaType = ''audio'', quality = ''audio'',
               audioBitrate = Some (if qualityParam = ''128'' then ''128'' else ''auto'')\<rparr>
         else \<lparr>mediaType = ''video'',
               quality = (if qualityParam \<in> set allowedVideoQualities then qualityParam
                          else ''best''),
               audioBitrate = None\<rparr>)"

definition isYouTubeHost :: "string \<Rightarrow> bool" where
  "isYouTubeHost hostname =
     (hostname = ''youtube.com'' \<or> hostname = ''www.youtube.com'' \<or> hostname = ''m.youtube.com''
      \<or> hostname = ''music.youtube.com'' \<or> hostname = ''youtu.be'')"

definition isYouTubeUrl :: "'u url_api \<Rightarrow> string \<Rightarrow> bool" where
  "isYouTubeUrl api u =
     (case url_new api u of
        None \<Rightarrow> False
      | Some parsed \<Rightarrow> isYouTubeHost (toLowerCase (url_hostname api parsed)))"

definition normalizeExternalVideoUrl :: "'u url_api \<Rightarrow> string \<Rightarrow> string" where
  "normalizeExternalVideoUrl api u =
     (case url_new api u of
        None \<Rightarrow> u
      | Some parsed \<Rightarrow>
          (let host = toLowerCase (url_hostname api parsed)
           in if isYouTubeHost host
              then (let hasVideoId = (sp_has api parsed ''v'' \<or> host = ''youtu.be'')
                    in if hasVideoId
                       then url_toString api
                              (sp_delete api (sp_delete api parsed ''list'') ''index'')
                       else url_toString api parsed)
              else url_toString api parsed))"

text \<open>
  \<open>isSafeUrl\<close> comes from \<open>./utils\<close>, which is not among the sources; it is the parameter
  \<open>isSafeUrl\<close>, a predicate on strings.
\<close>

definition parseExternalDeepLink ::
  "'u url_api \<Rightarrow> (string \<Rightarrow> bool) \<Rightarrow> string \<Rightarrow> ExternalLinkRequest option" where
  "parseExternalDeepLink api isSafeUrl raw_link =
     (if raw_link = [] \<or> length raw_link > MAX_EXTERNAL_DEEPLINK_LENGTH then None
      else case url_new api raw_link of
        None \<Rightarrow> None
      | Some parsed \<Rightarrow>
          if url_protocol api parsed \<noteq> ''youwee:'' \<or> url_hostname api parsed \<noteq> ''download''
          then None
          else if sp_get api parsed ''v'' \<noteq> Some ''1'' then None
          else case map_option trim (sp_get api parsed ''url'') of
            None \<Rightarrow> None
          | Some urlParam \<Rightarrow>
              if urlParam = [] \<or> \<not> isSafeUrl urlParam then None
              else (let normalizedUrl = normalizeExternalVideoUrl api urlParam
                    in if \<not> isSafeUrl normalizedUrl \<or> \<not> isPublicHttpUrl api normalizedUrl
                       then None
                       else (let targetParam = sp_get api parsed ''target'';
                                 tgt = (if targetParam = Some ''youtube'' then TargetYoutube
                                        else if targetParam = Some ''universal''
                                        then TargetUniversal else TargetAuto);
                                 actionParam = sp_get api parsed ''action'';
                                 act = (if actionParam = Some ''queue_only'' then QueueOnly
                                        else DownloadNow)
                             in Some \<lparr>raw = raw_link, url = normalizedUrl, target = tgt,
                                      action = act,
                                      enqueueOptions = parseEnqueueOptions api parsed,
                                      source = normalizeExternalSource
                                                 (sp_get api parsed ''source'')\<rparr>)))"

definition resolveExternalRouteTarget ::
  "'u url_api \<Rightarrow> ExternalLinkTarget \<Rightarrow> string \<Rightarrow> ExternalRouteTarget" where
  "resolveExternalRouteTarget api preferredTarget u =
     (case preferredTarget of
        TargetYoutube \<Rightarrow> RouteYoutube
      | TargetUniversal \<Rightarrow> RouteUniversal
      | TargetAuto \<Rightarrow> if isYouTubeUrl api u then RouteYoutube else RouteUniversal)"

section \<open>Retry policy (download-retry.ts)\<close>

text \<open>The patterns carry the flag \<open>i\<close>; they are tested with \<open>ic = True\<close>.\<close>

definition RETRYABLE_PATTERNS :: "regex list" where
  "RETRYABLE_PATTERNS =
     [cat [Chars ''time'', Opt (Chars ''d''), Star Space, Chars ''out''],
      Chars ''timeout'',
      cat [Chars ''connection '',
           alts (Chars ''reset'') [Chars ''aborted'', Chars ''closed'', Chars ''refused'']],
      cat [Chars ''network'', Opt (cat [Plus Space, Chars ''is'']), Plus Space,
           Chars ''unreachable''],
      cat [Chars ''temporar'', Alt (Chars ''ily'') (Chars ''y''), Plus Space,
           Chars ''unavailable''],
      Chars ''try again'',
      Chars ''too many requests'',
      cat [WordBoundary, Chars ''429'', WordBoundary],
      cat [WordBoundary, Chars ''5'', Times 2 Digit, WordBoundary],
      cat [Chars ''http error 5'', Times 2 Digit],
      cat [Chars ''live '', Opt (Chars ''stream ''),
           alts (Chars ''ended'') [Chars ''interrupted'', Chars ''is offline'']],
      cat [Chars ''fragment'', Star Dot, Alt (Chars ''failed'') (Chars ''error'')],
      Chars ''unable to download video data'',
      Chars ''remote end closed connection'',
      Alt (Chars ''tls'') (Chars ''ssl'')]"

definition NON_RETRYABLE_PATTERNS :: "regex list" where
  "NON_RETRYABLE_PATTERNS =
     [Chars ''private video'',
      Chars ''video unavailable'',
      Chars ''this video is not available'',
      Chars ''copyright'',
      cat [Chars ''geo'', Opt (Alt (Chars ''-'') (Cls Space)), Chars ''restricted''],
      Chars ''not available in your country'',
      Chars ''sign in'',
      Chars ''login required'',
      Chars ''unsupported url'',
      Chars ''unsupported site'',
      Chars ''drm'',
      Chars ''permission denied'',
      Chars ''no such file or directory'',
      Chars ''invalid url'']"

text \<open>
  A JavaScript number: a finite double, an infinity or NaN. The clamping functions only
  compare and select, so a finite double is its real value; \<open>-0\<close> is \<open>Finite 0\<close>.
\<close>

datatype number = Finite real | PosInf | NegInf | NaN

fun Math_min :: "number \<Rightarrow> number \<Rightarrow> number" where
  "Math_min NaN y = NaN"
| "Math_min x NaN = NaN"
| "Math_min NegInf y = NegInf"
| "Math_min x NegInf = NegInf"
| "Math_min PosInf y = y"
| "Math_min x PosInf = x"
| "Math_min (Finite a) (Finite b) = Finite (min a b)"

fun Math_max :: "number \<Rightarrow> number \<Rightarrow> number" where
  "Math_max NaN y = NaN"
| "Math_max x NaN = NaN"
| "Math_max PosInf y = PosInf"
| "Math_max x PosInf = PosInf"
| "Math_max NegInf y = y"
| "Math_max x NegInf = x"
| "Math_max (Finite a) (Finite b) = Finite (max a b)"

text \<open>The falsy numbers are \<open>0\<close>, \<open>-0\<close> and NaN.\<close>

definition falsy :: "number \<Rightarrow> bool" where
  "falsy v = (v = NaN \<or> v = Finite 0)"

text \<open>
  \<open>value || d\<close>. The parameter is declared \<open>number\<close>; \<open>None\<close> stands for \<open>undefined\<close>
  reaching the function at run time.
\<close>

definition or_default :: "number option \<Rightarrow> number \<Rightarrow> number" where
  "or_default v d = (case v of None \<Rightarrow> d | Some x \<Rightarrow> if falsy x then d else x)"

record limits =
  lim_min :: number
  lim_max :: number
  lim_default :: number

definition AUTO_RETRY_LIMITS_maxAttempts :: limits where
  "AUTO_RETRY_LIMITS_maxAttempts = \<lparr>lim_min = Finite 1, lim_max = Finite 10, lim_default = Finite 3\<rparr>"

definition AUTO_RETRY_LIMITS_delaySeconds :: limits where
  "AUTO_RETRY_LIMITS_delaySeconds = \<lparr>lim_min = Finite 1, lim_max = Finite 60, lim_default = Finite 5\<rparr>"

definition clampAutoRetryMaxAttempts :: "number option \<Rightarrow> number" where
  "clampAutoRetryMaxAttempts v =
     Math_max (lim_min AUTO_RETRY_LIMITS_maxAttempts)
       (Math_min (lim_max AUTO_RETRY_LIMITS_maxAttempts)
          (or_default v (lim_default AUTO_RETRY_LIMITS_maxAttempts)))"

definition clampAutoRetryDelaySeconds :: "number option \<Rightarrow> number" where
  "clampAutoRetryDelaySeconds v =
     Math_max (lim_min AUTO_RETRY_LIMITS_delaySeconds)
       (Math_min (lim_max AUTO_RETRY_LIMITS_delaySeconds)
          (or_default v (lim_default AUTO_RETRY_LIMITS_delaySeconds)))"

text \<open>
  The argument of \<open>normalizeErrorMessage\<close> has type \<open>unknown\<close>. The function looks at three
  things: whether the value is a string; whether it is a non-null object, and then what
  reading its \<open>message\<close> property gives; and what \<open>String(error)\<close> gives (\<open>None\<close> where the
  conversion throws). \<open>JOther\<close> is every value that is neither a string nor a non-null
  object: \<open>undefined\<close>, \<open>null\<close>, numbers, booleans, bigints, symbols and functions.
\<close>

datatype message_prop = MsgString string | MsgOther | MsgThrows

datatype js_value =
    JString string
  | JObject message_prop "string option"
  | JOther "string option"

datatype 'a outcome = Returns 'a | Throws

definition string_conversion :: "string option \<Rightarrow> string outcome" where
  "string_conversion conv =
     (case conv of
        None \<Rightarrow> Returns ''Unknown error''
      | Some r \<Rightarrow> Returns (if r = [] then ''Unknown error'' else r))"

fun normalizeErrorMessage :: "js_value \<Rightarrow> string outcome" where
  "normalizeErrorMessage (JString s) = Returns s"
| "normalizeErrorMessage (JObject m conv) =
     (case m of
        MsgThrows \<Rightarrow> Throws
      | MsgString maybeMessage \<Rightarrow>
          if trim maybeMessage \<noteq> [] then Returns maybeMessage else string_conversion conv
      | MsgOther \<Rightarrow> string_conversion conv)"
| "normalizeErrorMessage (JOther conv) = string_conversion conv"

definition isNonRetryableError :: "string \<Rightarrow> bool" where
  "isNonRetryableError message =
     (let text = trim message
      in if text = [] then False
         else list_ex (\<lambda>pattern. regex_test True pattern text) NON_RETRYABLE_PATTERNS)"

definition isRetryableError :: "string \<Rightarrow> bool" where
  "isRetryableError message =
     (let text = trim message
      in if text = [] \<or> isNonRetryableError text then False
         else list_ex (\<lambda>pattern. regex_test True pattern text) RETRYABLE_PATTERNS)"

text \<open>
  \<open>waitWithCancellation\<close> runs in a world of type \<open>'s\<close>: \<open>isCancelled\<close> reads the world and
  may change it, the observer \<open>onTick\<close> changes it, and \<open>sleep\<close> is what the rest of the
  program does to it while the function awaits the one-second timer. \<open>ms\<close> is a finite
  number; the loop counter is exact below \<open>2^53\<close>, and the model counts in \<^typ>\<open>nat\<close>.
\<close>

fun countdown ::
  "('s \<Rightarrow> bool \<times> 's) \<Rightarrow> (nat \<Rightarrow> 's \<Rightarrow> 's) option \<Rightarrow> ('s \<Rightarrow> 's) \<Rightarrow> nat \<Rightarrow> 's \<Rightarrow> bool \<times> 's" where
  "countdown isCancelled onTick sleep 0 s =
     (case isCancelled s of (cancelled, s1) \<Rightarrow> (\<not> cancelled, s1))"
| "countdown isCancelled onTick sleep (Suc n) s =
     (case isCancelled s of (cancelled, s1) \<Rightarrow>
        if cancelled then (False, s1)
        else countdown isCancelled onTick sleep n
               (sleep (case onTick of None \<Rightarrow> s1 | Some f \<Rightarrow> f (Suc n) s1)))"

definition totalSeconds :: "real \<Rightarrow> nat" where
  "totalSeconds ms = nat (max 0 \<lceil>ms / 1000\<rceil>)"

definition waitWithCancellation ::
  "real \<Rightarrow> ('s \<Rightarrow> bool \<times> 's) \<Rightarrow> (nat \<Rightarrow> 's \<Rightarrow> 's) option \<Rightarrow> ('s \<Rightarrow> 's) \<Rightarrow> 's \<Rightarrow> bool \<times> 's" where
  "waitWithCancellation ms isCancelled onTick sleep s =
     countdown isCancelled onTick sleep (totalSeconds ms) s"

text \<open>
  A world that records what happens to it: the number of polls so far and the events in
  order. The \<open>k\<close>-th poll of the cancellation predicate (counted from 0) answers \<open>c k\<close>.
\<close>

datatype event = Poll bool | Tick nat | Sleep

type_synonym world = "nat \<times> event list"

definition rec_isCancelled :: "(nat \<Rightarrow> bool) \<Rightarrow> world \<Rightarrow> bool \<times> world" where
  "rec_isCancelled c w = (c (fst w), (Suc (fst w), snd w @ [Poll (c (fst w))]))"

definition rec_onTick :: "nat \<Rightarrow> world \<Rightarrow> world" where
  "rec_onTick remaining w = (fst w, snd w @ [Tick remaining])"

definition rec_sleep :: "world \<Rightarrow> world" where
  "rec_sleep w = (fst w, snd w @ [Sleep])"

text \<open>
  The first \<open>j\<close> uncancelled seconds of a countdown from \<open>n\<close>: a poll answering
  ``not cancelled'', the tick with the seconds that remain (when an observer is supplied),
  the sleep.
\<close>

definition rounds :: "bool \<Rightarrow> nat \<Rightarrow> nat \<Rightarrow> event list" where
  "rounds observed n j =
     concat (map (\<lambda>i. [Poll False] @ (if observed then [Tick (n - i)] else []) @ [Sleep])
                 [0..<j])"

definition ticks_of :: "event list \<Rightarrow> nat list" where
  "ticks_of es = concat (map (\<lambda>e. case e of Tick r \<Rightarrow> [r] | _ \<Rightarrow> []) es)"

text \<open>The claim's reading of the clamping: the value moved into the range \<open>[lo, hi]\<close>.\<close>

fun clamp_into :: "real \<Rightarrow> real \<Rightarrow> number \<Rightarrow> number" where
  "clamp_into lo hi (Finite r) = Finite (if r < lo then lo else if hi < r then hi else r)"
| "clamp_into lo hi PosInf = Finite hi"
| "clamp_into lo hi NegInf = Finite lo"
| "clamp_into lo hi NaN = NaN"

section \<open>What the proofs need of the URL class\<close>

text \<open>
  The round trips of the URL Standard, as far as \<open>normalizeExternalVideoUrl\<close> depends on
  them: a URL object that the constructor returned is the object its own serialisation
  parses to, also after \<open>searchParams.delete\<close>; deleting a parameter leaves the host name
  alone, removes exactly that name from what \<open>has\<close> reports, and deleting twice or in
  another order makes no difference.
\<close>

definition url_laws :: "'u url_api \<Rightarrow> bool" where
  "url_laws api =
     ((\<forall>s u. url_new api s = Some u \<longrightarrow> url_new api (url_toString api u) = Some u)
      \<and> (\<forall>s u n. url_new api s = Some u \<longrightarrow> (\<exists>s'. url_new api s' = Some (sp_delete api u n)))
      \<and> (\<forall>u n. url_hostname api (sp_delete api u n) = url_hostname api u)
      \<and> (\<forall>u n k. sp_has api (sp_delete api u n) k = (sp_has api u k \<and> k \<noteq> n))
      \<and> (\<forall>u n. sp_delete api (sp_delete api u n) n = sp_delete api u n)
      \<and> (\<forall>u n m. sp_delete api (sp_delete api u n) m = sp_delete api (sp_delete api u m) n))"

section \<open>The URL class on the URLs of the examples\<close>

text \<open>
  For the examples, the URL class restricted to a finite table of URLs, each given by its
  components. Their parameters hold only letters, digits and the characters \<open>:/?.=\<close>, which
  the serialisers of the URL Standard leave as they are, so the serialisation below is the
  one of the platform on these URLs. \<open>new URL(s)\<close> succeeds for the serialisations of the
  table.
\<close>

record demo_url =
  d_protocol :: string
  d_hostname :: string
  d_pathname :: string
  d_params :: "(string \<times> string) list"

fun demo_query :: "(string \<times> string) list \<Rightarrow> string" where
  "demo_query [] = []"
| "demo_query [kv] = fst kv @ ''='' @ snd kv"
| "demo_query (kv # kvs) = fst kv @ ''='' @ snd kv @ ''&'' @ demo_query kvs"

definition demo_href :: "demo_url \<Rightarrow> string" where
  "demo_href u =
     d_protocol u @ ''//'' @ d_hostname u @ d_pathname u
       @ (if d_params u = [] then [] else ''?'' @ demo_query (d_params u))"

definition demo_delete :: "demo_url \<Rightarrow> string \<Rightarrow> demo_url" where
  "demo_delete u n = u\<lparr>d_params := filter (\<lambda>kv. fst kv \<noteq> n) (d_params u)\<rparr>"

definition table_api :: "demo_url list \<Rightarrow> demo_url url_api" where
  "table_api tbl =
     \<lparr>url_new = (\<lambda>s. find (\<lambda>u. demo_href u = s) tbl),
      url_protocol = d_protocol,
      url_hostname = d_hostname,
      sp_get = (\<lambda>u k. map_of (d_params u) k),
      sp_has = (\<lambda>u k. map_of (d_params u) k \<noteq> None),
      sp_delete = demo_delete,
      url_toString = demo_href\<rparr>"

definition deep_link :: "(string \<times> string) list \<Rightarrow> demo_url" where
  "deep_link ps =
     \<lparr>d_protocol = ''youwee:'', d_hostname = ''download'', d_pathname = [], d_params = ps\<rparr>"

definition watch_url :: demo_url where
  "watch_url =
     \<lparr>d_protocol = ''https:'', d_hostname = ''youtube.com'', d_pathname = ''/watch'',
      d_params = [(''v'', ''abc123'')]\<rparr>"

definition lan_url :: demo_url where
  "lan_url =
     \<lparr>d_protocol = ''http:'', d_hostname = ''192.168.1.5'', d_pathname = ''/video.mp4'',
      d_params = []\<rparr>"

definition file_url :: demo_url where
  "file_url =
     \<lparr>d_protocol = ''https:'', d_hostname = ''example.com'', d_pathname = ''/video.mp4'',
      d_params = []\<rparr>"

definition demo_urls :: "demo_url list" where
  "demo_urls =
     [deep_link [(''v'', ''1''), (''url'', ''https://youtube.com/watch?v=abc123'')],
      deep_link [(''v'', ''1''), (''url'', ''https://youtube.com/watch?v=abc123''),
                 (''media'', ''audio''), (''quality'', ''128'')],
      deep_link [(''v'', ''1''), (''url'', ''https://youtube.com/watch?v=abc123''),
                 (''quality'', ''4320p'')],
      deep_link [(''v'', ''2''), (''url'', ''https://youtube.com/watch?v=abc123'')],
      deep_link [(''v'', ''1''), (''url'', ''http://192.168.1.5/video.mp4'')],
      watch_url, lan_url, file_url]"

definition demo_api :: "demo_url url_api" where
  "demo_api = table_api demo_urls"

text \<open>A short link with its playlist parameters, and what deleting them leaves.\<close>

definition short_link :: "(string \<times> string) list \<Rightarrow> demo_url" where
  "short_link ps =
     \<lparr>d_protocol = ''https:'', d_hostname = ''youtu.be'', d_pathname = ''/abc'', d_params = ps\<rparr>"

definition short_link_urls :: "demo_url list" where
  "short_link_urls =
     [short_link [(''list'', ''PL1''), (''index'', ''2'')],
      short_link [(''list'', ''PL1'')],
      short_link [(''index'', ''2'')],
      short_link []]"

definition short_link_api :: "demo_url url_api" where
  "short_link_api = table_api short_link_urls"

section \<open>Verification: host safety classifier\<close>

lemma search_Bol: "search ic (Seq Bol r) (Some q) s = False"
  by (induction s arbitrary: q) auto

lemma test_Bol: "regex_test ic (Seq Bol r) s = (run ic r (None, s) \<noteq> [])"
  by (cases s) (auto simp: regex_test_def search_Bol)

lemma match_chars_exact:
  "match_chars False as p s =
     (if prefix as s then [(if as = [] then p else Some (last as), drop (length as) s)] else [])"
proof (induction as arbitrary: p s)
  case Nil
  show ?case by simp
next
  case (Cons a as)
  show ?case by (cases s) (simp_all add: Cons.IH)
qed

lemma test_prefix: "regex_test False (Seq Bol (Chars as)) s = prefix as s"
  by (simp add: test_Bol match_chars_exact)

lemma code_unit_inj: "(code_unit c = code_unit d) = (c = d)"
  by (simp add: code_unit_def)

lemma mem_chars_by_code: "(d \<in> set cs) = (code_unit d \<in> code_unit ` set cs)"
  by (auto simp: code_unit_inj)

lemma range_6_9:
  "(code_unit CHR ''6'' \<le> code_unit d \<and> code_unit d \<le> code_unit CHR ''9'')
     = (d \<in> set ''6789'')"
  unfolding mem_chars_by_code[of d] by (simp add: code_unit_def) arith

lemma range_0_1:
  "(code_unit CHR ''0'' \<le> code_unit d \<and> code_unit d \<le> code_unit CHR ''1'')
     = (d \<in> set ''01'')"
  unfolding mem_chars_by_code[of d] by (simp add: code_unit_def) arith

lemma range_digit:
  "(48 \<le> code_unit d \<and> code_unit d \<le> 57) = (d \<in> set ''0123456789'')"
  unfolding mem_chars_by_code[of d] by (simp add: code_unit_def) arith

lemma tail_short:
  "run False re_172_tail (p, []) = []"
  "run False re_172_tail (p, [a]) = []"
  "run False re_172_tail (p, [a, b]) = []"
  by (simp_all add: re_172_tail_def)

lemma tail_long:
  "(run False re_172_tail (p, a # b # c # u) \<noteq> []) =
     (c = CHR ''.'' \<and> ((a = CHR ''1'' \<and> b \<in> set ''6789'') \<or> (a = CHR ''2'' \<and> b \<in> set ''0123456789'')
        \<or> (a = CHR ''3'' \<and> b \<in> set ''01'')))"
  unfolding range_6_9[symmetric] range_0_1[symmetric] range_digit[symmetric]
  by (simp add: re_172_tail_def)

lemma prefixes_172: "\<forall>p \<in> set (drop 4 private_ipv4_prefixes). prefix ''172.'' p"
  by (simp add: private_ipv4_prefixes_def)

lemma tail_prefixes:
  "(c = CHR ''.'' \<and> ((a = CHR ''1'' \<and> b \<in> set ''6789'') \<or> (a = CHR ''2'' \<and> b \<in> set ''0123456789'')
        \<or> (a = CHR ''3'' \<and> b \<in> set ''01'')))
   = (\<exists>p \<in> set (drop 4 private_ipv4_prefixes). prefix p (''172.'' @ a # b # c # u))"
  (is "?L = ?R")
proof
  assume ?L
  then have c: "c = CHR ''.''"
    and ab: "(a = CHR ''1'' \<and> b \<in> set ''6789'') \<or> (a = CHR ''2'' \<and> b \<in> set ''0123456789'')
        \<or> (a = CHR ''3'' \<and> b \<in> set ''01'')"
    by blast+
  from ab show ?R
    apply (simp only: set_simps insert_iff empty_iff)
    apply (elim conjE disjE)
    apply (simp_all add: c private_ipv4_prefixes_def)
    done
next
  assume ?R
  then obtain p where "p \<in> set (drop 4 private_ipv4_prefixes)" and "prefix p (''172.'' @ a # b # c # u)"
    by blast
  then show ?L
    apply (simp add: private_ipv4_prefixes_def)
    apply (elim disjE; clarsimp)
    done
qed


lemma re_172_iff:
  "regex_test False re_172 s = (\<exists>p \<in> set (drop 4 private_ipv4_prefixes). prefix p s)"
proof (cases "prefix ''172.'' s")
  case False
  have "\<not> regex_test False re_172 s"
    using False by (simp add: re_172_def test_Bol match_chars_exact)
  moreover have "\<not> (\<exists>p \<in> set (drop 4 private_ipv4_prefixes). prefix p s)"
  proof
    assume "\<exists>p \<in> set (drop 4 private_ipv4_prefixes). prefix p s"
    then obtain p where p: "p \<in> set (drop 4 private_ipv4_prefixes)" and pre: "prefix p s"
      by (rule bexE)
    from prefixes_172 p have "prefix ''172.'' p" by (rule bspec)
    then have "prefix ''172.'' s" using pre by (rule prefix_order.trans)
    with False show False by contradiction
  qed
  ultimately show ?thesis by simp
next
  case True
  then obtain t where s: "s = ''172.'' @ t" by (auto simp: prefix_def)
  have run: "regex_test False re_172 s = (run False re_172_tail (Some CHR ''.'', t) \<noteq> [])"
    by (simp add: s re_172_def re_172_tail_def test_Bol)
  have short: "length t < 3 \<Longrightarrow> \<not> (\<exists>p \<in> set (drop 4 private_ipv4_prefixes). prefix p s)"
  proof
    assume len: "length t < 3" and ex: "\<exists>p \<in> set (drop 4 private_ipv4_prefixes). prefix p s"
    from ex obtain p where p: "p \<in> set (drop 4 private_ipv4_prefixes)" and pre: "prefix p s"
      by (rule bexE)
    from p have "length p = 7" by (auto simp: private_ipv4_prefixes_def)
    moreover from pre have "length p \<le> length s" by (rule prefix_length_le)
    ultimately show False using len by (simp add: s)
  qed
  show ?thesis
  proof (cases t)
    case Nil
    then show ?thesis using short by (simp add: run tail_short)
  next
    case (Cons a t1)
    note c1 = this
    show ?thesis
    proof (cases t1)
      case Nil
      then show ?thesis using short by (simp add: run c1 tail_short)
    next
      case (Cons b t2)
      note c2 = this
      show ?thesis
      proof (cases t2)
        case Nil
        then show ?thesis using short by (simp add: run c1 c2 tail_short)
      next
        case (Cons c u)
        have "regex_test False re_172 s = (run False re_172_tail (Some CHR ''.'', a # b # c # u) \<noteq> [])"
          by (simp add: run c1 c2 Cons)
        also have "\<dots> = (\<exists>p \<in> set (drop 4 private_ipv4_prefixes). prefix p (''172.'' @ a # b # c # u))"
          unfolding tail_long by (rule tail_prefixes)
        finally show ?thesis by (simp add: s c1 c2 Cons)
      qed
    qed
  qed
qed

lemma ipv4_split:
  "(\<exists>p \<in> set private_ipv4_prefixes. prefix p s) =
     (prefix ''127.'' s \<or> prefix ''10.'' s \<or> prefix ''192.168.'' s \<or> prefix ''169.254.'' s
      \<or> (\<exists>p \<in> set (drop 4 private_ipv4_prefixes). prefix p s))"
  by (simp add: private_ipv4_prefixes_def)

lemma classifier_eq_spec: "isPrivateOrLocalHost h = private_or_local_spec h"
  unfolding isPrivateOrLocalHost_def private_or_local_spec_def Let_def
    re_127_def re_10_def re_192_168_def re_169_254_def test_prefix re_172_iff ipv4_split
    startsWith_def endsWith_def str_includes_def
  by (simp only: set_simps insert_iff empty_iff bex_simps simp_thms if_True if_False split: if_splits) blast

lemma private_hosts:
  "isPrivateOrLocalHost ''127.0.0.1''" "isPrivateOrLocalHost ''10.0.0.1''"
  "isPrivateOrLocalHost ''192.168.1.1''" "isPrivateOrLocalHost ''169.254.1.1''"
  "isPrivateOrLocalHost ''localhost''" "isPrivateOrLocalHost ''foo.local''"
  "isPrivateOrLocalHost ''::1''" "isPrivateOrLocalHost ''fe80::1''"
  by code_simp+

lemma public_hosts:
  "\<not> isPrivateOrLocalHost ''example.com''" "\<not> isPrivateOrLocalHost ''8.8.8.8''"
  "\<not> isPrivateOrLocalHost ''youtube.com''"
  by code_simp+

text \<open>
  C2: the classifier answers true exactly in the listed cases (empty host, the four exact
  names, the three suffixes, the textual IPv4 prefixes with \<open>172.16.\<close> to \<open>172.31.\<close>, and
  a colon together with \<open>fe80:\<close>, \<open>fc\<close> or \<open>fd\<close>), after lower-casing and stripping the
  brackets; it is true on the eight private example hosts and false on the three public ones.
\<close>

theorem host_classifier_cases:
  "isPrivateOrLocalHost h = private_or_local_spec h
   \<and> isPrivateOrLocalHost ''127.0.0.1'' \<and> isPrivateOrLocalHost ''10.0.0.1''
   \<and> isPrivateOrLocalHost ''192.168.1.1'' \<and> isPrivateOrLocalHost ''169.254.1.1''
   \<and> isPrivateOrLocalHost ''localhost'' \<and> isPrivateOrLocalHost ''foo.local''
   \<and> isPrivateOrLocalHost ''::1'' \<and> isPrivateOrLocalHost ''fe80::1''
   \<and> \<not> isPrivateOrLocalHost ''example.com'' \<and> \<not> isPrivateOrLocalHost ''8.8.8.8''
   \<and> \<not> isPrivateOrLocalHost ''youtube.com''"
  using classifier_eq_spec private_hosts public_hosts by blast

lemma host_172_20: "isPrivateOrLocalHost ''[172.20.0.1]''"
  by code_simp

lemma host_172_32: "\<not> isPrivateOrLocalHost ''172.32.0.1''"
  by code_simp

theorem host_classifier_cases_witness:
  "private_or_local_spec ''[172.20.0.1]'' \<and> \<not> private_or_local_spec ''172.32.0.1''"
  using host_classifier_cases[of "''[172.20.0.1]''"] host_classifier_cases[of "''172.32.0.1''"]
    host_172_20 host_172_32
  by blast

section \<open>Verification: error classification\<close>

lemma dropWhile_last:
  "dropWhile P xs \<noteq> [] \<Longrightarrow> last (dropWhile P xs) = last xs"
  by (induction xs) (auto split: if_splits)

lemma dropWhile_fix: "xs = [] \<or> \<not> P (hd xs) \<Longrightarrow> dropWhile P xs = xs"
  by (cases xs) auto

lemma trim_ends:
  assumes "trim s \<noteq> []"
  shows "\<not> is_white_space (hd (trim s))" and "\<not> is_white_space (last (trim s))"
proof -
  let ?d = "dropWhile is_white_space s"
  let ?e = "dropWhile is_white_space (rev ?d)"
  have e: "?e \<noteq> []" using assms by (simp add: trim_def)
  have d: "?d \<noteq> []"
  proof
    assume a: "?d = []"
    have "?e = []" unfolding a by simp
    with e show False by contradiction
  qed
  have "hd (trim s) = last ?e" using e by (simp add: trim_def hd_rev)
  also have "\<dots> = last (rev ?d)" using e by (rule dropWhile_last)
  also have "\<dots> = hd ?d" using d by (simp add: last_rev)
  finally show "\<not> is_white_space (hd (trim s))" using d hd_dropWhile by metis
  have "last (trim s) = hd ?e" using e by (simp add: trim_def last_rev)
  then show "\<not> is_white_space (last (trim s))" using e hd_dropWhile by metis
qed

lemma trim_idem: "trim (trim s) = trim s"
proof (cases "trim s = []")
  case True
  have "trim [] = []" by (simp add: trim_def)
  with True show ?thesis by simp
next
  case False
  from trim_ends[OF False] have h: "\<not> is_white_space (hd (trim s))"
    and l: "\<not> is_white_space (last (trim s))" by auto
  have 1: "dropWhile is_white_space (trim s) = trim s"
    using h by (intro dropWhile_fix) simp
  have 2: "dropWhile is_white_space (rev (trim s)) = rev (trim s)"
    using l False by (intro dropWhile_fix) (simp add: hd_rev)
  show ?thesis
    unfolding trim_def[of "trim s"] 1 2 by simp
qed

lemma trim_empty_iff: "(trim s = []) = (\<forall>c \<in> set s. is_white_space c)"
proof -
  let ?d = "dropWhile is_white_space s"
  have "(trim s = []) = (\<forall>c \<in> set ?d. is_white_space c)"
    by (simp add: trim_def dropWhile_eq_Nil_conv)
  also have "\<dots> = (?d = [])"
    using hd_dropWhile[of is_white_space s] by (cases ?d) (auto simp del: dropWhile_eq_Nil_conv)
  also have "\<dots> = (\<forall>c \<in> set s. is_white_space c)"
    by (simp add: dropWhile_eq_Nil_conv)
  finally show ?thesis .
qed

text \<open>
  C4: a message that \<open>isNonRetryableError\<close> accepts is never accepted by
  \<open>isRetryableError\<close>, whatever retryable pattern it also matches; and \<open>isRetryableError\<close>
  is false on a blank or whitespace-only message.
\<close>

theorem nonretryable_precedence:
  "(isNonRetryableError message \<longrightarrow> \<not> isRetryableError message)
   \<and> ((\<forall>c \<in> set message. is_white_space c) \<longrightarrow> \<not> isRetryableError message)"
proof (intro conjI impI)
  assume "isNonRetryableError message"
  then have "isNonRetryableError (trim message)"
    by (simp add: isNonRetryableError_def trim_idem Let_def)
  then show "\<not> isRetryableError message"
    by (simp add: isRetryableError_def Let_def)
next
  assume "\<forall>c \<in> set message. is_white_space c"
  then have "trim message = []" by (simp add: trim_empty_iff)
  then show "\<not> isRetryableError message"
    by (simp add: isRetryableError_def Let_def)
qed

lemma dual_match_nonretryable: "isNonRetryableError ''private video timeout''"
  by code_simp

lemma dual_match_retryable:
  "list_ex (\<lambda>pattern. regex_test True pattern ''private video timeout'') RETRYABLE_PATTERNS"
  by code_simp

lemma two_spaces_blank: "\<forall>c \<in> set ''  ''. is_white_space c"
  by (simp add: is_white_space_def code_unit_def)

theorem nonretryable_precedence_witness:
  "isNonRetryableError ''private video timeout''
   \<and> list_ex (\<lambda>pattern. regex_test True pattern ''private video timeout'') RETRYABLE_PATTERNS
   \<and> \<not> isRetryableError ''private video timeout''
   \<and> trim ''  '' = [] \<and> \<not> isRetryableError ''  ''"
  using nonretryable_precedence[of "''private video timeout''"]
    nonretryable_precedence[of "''  ''"]
    dual_match_nonretryable dual_match_retryable two_spaces_blank
    trim_empty_iff[of "''  ''"]
  by blast

section \<open>Verification: deep links\<close>

lemma parse_Some_fields:
  assumes "parseExternalDeepLink api safe r = Some req"
  shows "\<exists>parsed. url_new api r = Some parsed
          \<and> isPublicHttpUrl api (url req)
          \<and> enqueueOptions req = parseEnqueueOptions api parsed"
  using assms
  by (auto simp: parseExternalDeepLink_def Let_def split: if_splits option.splits)

lemma public_url_parts:
  "isPublicHttpUrl api u =
     (\<exists>parsed. url_new api u = Some parsed
        \<and> (url_protocol api parsed = ''http:'' \<or> url_protocol api parsed = ''https:'')
        \<and> \<not> isPrivateOrLocalHost (url_hostname api parsed))"
  by (auto simp: isPublicHttpUrl_def split: option.splits)

text \<open>
  C1: the \<open>url\<close> of every request that \<open>parseExternalDeepLink\<close> returns satisfies
  \<open>isPublicHttpUrl\<close>: it parses as a URL, its scheme is \<open>http:\<close> or \<open>https:\<close>, and its host
  name is not private or local.
\<close>

theorem deep_link_url_is_public:
  assumes "parseExternalDeepLink api safe r = Some req"
  shows "isPublicHttpUrl api (url req)
         \<and> (\<exists>parsed. url_new api (url req) = Some parsed
               \<and> (url_protocol api parsed = ''http:'' \<or> url_protocol api parsed = ''https:'')
               \<and> \<not> isPrivateOrLocalHost (url_hostname api parsed))"
proof -
  from parse_Some_fields[OF assms] have "isPublicHttpUrl api (url req)" by blast
  then show ?thesis using public_url_parts[of api "url req"] by blast
qed

lemma demo_parse_watch:
  "parseExternalDeepLink demo_api (\<lambda>u. True)
     ''youwee://download?v=1&url=https://youtube.com/watch?v=abc123''
   = Some \<lparr>raw = ''youwee://download?v=1&url=https://youtube.com/watch?v=abc123'',
            url = ''https://youtube.com/watch?v=abc123'', target = TargetAuto,
            action = DownloadNow,
            enqueueOptions = \<lparr>mediaType = ''video'', quality = ''best'', audioBitrate = None\<rparr>,
            source = None\<rparr>"
  by code_simp

theorem deep_link_url_is_public_witness:
  "isPublicHttpUrl demo_api ''https://youtube.com/watch?v=abc123''
   \<and> (\<exists>parsed. url_new demo_api ''https://youtube.com/watch?v=abc123'' = Some parsed
         \<and> (url_protocol demo_api parsed = ''http:'' \<or> url_protocol demo_api parsed = ''https:'')
         \<and> \<not> isPrivateOrLocalHost (url_hostname demo_api parsed))"
  using deep_link_url_is_public[OF demo_parse_watch] by simp

text \<open>
  C3: \<open>parseExternalDeepLink\<close> returns \<open>null\<close> when the link is empty or longer than 4096
  code units, when it does not parse as a URL, when its scheme is not \<open>youwee:\<close> or its
  host not \<open>download\<close>, and when its parameter \<open>v\<close> is not the string \<open>1\<close>. The function
  has no other outcome than a request or \<open>null\<close> on these paths: the constructor's exception
  is caught.
\<close>

theorem deep_link_rejections:
  assumes "r = [] \<or> length r > 4096 \<or> url_new api r = None
           \<or> (\<exists>parsed. url_new api r = Some parsed
                 \<and> (url_protocol api parsed \<noteq> ''youwee:'' \<or> url_hostname api parsed \<noteq> ''download''
                      \<or> sp_get api parsed ''v'' \<noteq> Some ''1''))"
  shows "parseExternalDeepLink api safe r = None"
  using assms
  by (auto simp: parseExternalDeepLink_def MAX_EXTERNAL_DEEPLINK_LENGTH_def)

lemma demo_v2:
  "url_new demo_api ''youwee://download?v=2&url=https://youtube.com/watch?v=abc123''
     = Some (deep_link [(''v'', ''2''), (''url'', ''https://youtube.com/watch?v=abc123'')])"
  by code_simp

lemma demo_v2_param:
  "sp_get demo_api (deep_link [(''v'', ''2''), (''url'', ''https://youtube.com/watch?v=abc123'')]) ''v''
     = Some ''2''"
  by code_simp

theorem deep_link_rejections_witness:
  "parseExternalDeepLink demo_api (\<lambda>u. True)
     ''youwee://download?v=2&url=https://youtube.com/watch?v=abc123'' = None
   \<and> parseExternalDeepLink demo_api (\<lambda>u. True) [] = None"
proof
  show "parseExternalDeepLink demo_api (\<lambda>u. True)
     ''youwee://download?v=2&url=https://youtube.com/watch?v=abc123'' = None"
    by (rule deep_link_rejections) (simp add: demo_v2 demo_v2_param)
  show "parseExternalDeepLink demo_api (\<lambda>u. True) [] = None"
    by (rule deep_link_rejections) simp
qed

text \<open>
  C7: an explicit \<open>youtube\<close> or \<open>universal\<close> is returned as it is; for \<open>auto\<close> the route is
  \<open>youtube\<close> exactly when the URL parses and its lower-cased host name is one of the
  YouTube hosts, and \<open>universal\<close> otherwise, also when the URL does not parse. The result
  is one of the two routes.
\<close>

theorem route_resolution:
  "resolveExternalRouteTarget api TargetYoutube u = RouteYoutube
   \<and> resolveExternalRouteTarget api TargetUniversal u = RouteUniversal
   \<and> (resolveExternalRouteTarget api TargetAuto u = RouteYoutube) =
       (\<exists>parsed. url_new api u = Some parsed
          \<and> toLowerCase (url_hostname api parsed)
              \<in> set [''youtube.com'', ''www.youtube.com'', ''m.youtube.com'',
                      ''music.youtube.com'', ''youtu.be''])
   \<and> (resolveExternalRouteTarget api TargetAuto u = RouteUniversal) =
       (\<not> (\<exists>parsed. url_new api u = Some parsed
          \<and> toLowerCase (url_hostname api parsed)
              \<in> set [''youtube.com'', ''www.youtube.com'', ''m.youtube.com'',
                      ''music.youtube.com'', ''youtu.be'']))
   \<and> (url_new api u = None \<longrightarrow> resolveExternalRouteTarget api TargetAuto u = RouteUniversal)
   \<and> (resolveExternalRouteTarget api t u = RouteYoutube
       \<or> resolveExternalRouteTarget api t u = RouteUniversal)"
  by (cases t) (auto simp: resolveExternalRouteTarget_def isYouTubeUrl_def isYouTubeHost_def
      split: option.splits)

lemma demo_unparseable: "url_new demo_api ''not a url'' = None"
  by code_simp

lemma demo_route_watch:
  "resolveExternalRouteTarget demo_api TargetAuto ''https://youtube.com/watch?v=abc123'' = RouteYoutube"
  by code_simp

theorem route_resolution_witness:
  "resolveExternalRouteTarget demo_api TargetAuto ''not a url'' = RouteUniversal
   \<and> (\<exists>parsed. url_new demo_api ''https://youtube.com/watch?v=abc123'' = Some parsed
          \<and> toLowerCase (url_hostname demo_api parsed)
              \<in> set [''youtube.com'', ''www.youtube.com'', ''m.youtube.com'',
                      ''music.youtube.com'', ''youtu.be''])"
  using route_resolution[of demo_api "''not a url''"]
    route_resolution[of demo_api "''https://youtube.com/watch?v=abc123''"]
    demo_unparseable demo_route_watch
  by blast

lemma parse_Some_url:
  assumes "parseExternalDeepLink api safe r = Some req"
  shows "url req \<in> range (normalizeExternalVideoUrl api)"
  using assms
  by (auto simp: parseExternalDeepLink_def Let_def split: if_splits option.splits)

lemma parseEnqueueOptions_cases:
  "parseEnqueueOptions api parsed =
     (if sp_get api parsed ''media'' = Some ''audio''
      then \<lparr>mediaType = ''audio'', quality = ''audio'',
            audioBitrate = Some (if sp_get api parsed ''quality'' = Some ''128'' then ''128''
                                 else ''auto'')\<rparr>
      else \<lparr>mediaType = ''video'',
            quality = (case sp_get api parsed ''quality'' of
                         None \<Rightarrow> ''best''
                       | Some q \<Rightarrow> if q \<in> set [''best'', ''8k'', ''4k'', ''2k'', ''1080'', ''720'',
                                                ''480'', ''360'']
                                   then q else ''best''),
            audioBitrate = None\<rparr>)"
  by (auto simp: parseEnqueueOptions_def or_empty_def allowedVideoQualities_def Let_def
      split: option.splits)

lemma normalize_sp_get:
  "normalizeExternalVideoUrl (api\<lparr>sp_get := g\<rparr>) u = normalizeExternalVideoUrl api u"
  by (simp add: normalizeExternalVideoUrl_def Let_def cong: option.case_cong if_cong)

lemma public_sp_get: "isPublicHttpUrl (api\<lparr>sp_get := g\<rparr>) u = isPublicHttpUrl api u"
  by (simp add: isPublicHttpUrl_def cong: option.case_cong)

lemma rejection_ignores_media_quality:
  assumes "\<forall>u k. k \<noteq> ''media'' \<and> k \<noteq> ''quality'' \<longrightarrow> g u k = sp_get api u k"
  shows "(parseExternalDeepLink (api\<lparr>sp_get := g\<rparr>) safe r = None)
          = (parseExternalDeepLink api safe r = None)"
proof -
  have v: "\<And>p. g p ''v'' = sp_get api p ''v''" and u: "\<And>p. g p ''url'' = sp_get api p ''url''"
    using assms by simp_all
  show ?thesis
    by (simp add: parseExternalDeepLink_def normalize_sp_get public_sp_get v u Let_def
        cong: option.case_cong split: option.splits)
qed

text \<open>
  C9: the \<open>enqueueOptions\<close> of a returned request are the audio variant exactly when the
  parameter \<open>media\<close> is \<open>audio\<close>, with bitrate \<open>128\<close> exactly when the parameter \<open>quality\<close>
  is \<open>128\<close> and \<open>auto\<close> otherwise; in every other case they are the video variant, whose
  quality is the parameter \<open>quality\<close> when it is one of the eight allowed values and
  \<open>best\<close> otherwise. Whether the link is rejected does not depend on the values of
  \<open>media\<close> and \<open>quality\<close>.
\<close>

theorem enqueue_options_of_deep_link:
  "(parseExternalDeepLink api safe r = Some req \<longrightarrow>
      (\<exists>parsed. url_new api r = Some parsed
         \<and> enqueueOptions req =
             (if sp_get api parsed ''media'' = Some ''audio''
              then \<lparr>mediaType = ''audio'', quality = ''audio'',
                    audioBitrate = Some (if sp_get api parsed ''quality'' = Some ''128''
                                         then ''128'' else ''auto'')\<rparr>
              else \<lparr>mediaType = ''video'',
                    quality = (case sp_get api parsed ''quality'' of
                                 None \<Rightarrow> ''best''
                               | Some q \<Rightarrow> if q \<in> set [''best'', ''8k'', ''4k'', ''2k'', ''1080'',
                                                        ''720'', ''480'', ''360'']
                                           then q else ''best''),
                    audioBitrate = None\<rparr>)))
   \<and> ((\<forall>u k. k \<noteq> ''media'' \<and> k \<noteq> ''quality'' \<longrightarrow> g u k = sp_get api u k) \<longrightarrow>
        (parseExternalDeepLink (api\<lparr>sp_get := g\<rparr>) safe r = None)
          = (parseExternalDeepLink api safe r = None))"
proof (intro conjI impI)
  assume "parseExternalDeepLink api safe r = Some req"
  from parse_Some_fields[OF this] obtain parsed where
    "url_new api r = Some parsed" "enqueueOptions req = parseEnqueueOptions api parsed"
    by blast
  then show "\<exists>parsed. url_new api r = Some parsed
         \<and> enqueueOptions req =
             (if sp_get api parsed ''media'' = Some ''audio''
              then \<lparr>mediaType = ''audio'', quality = ''audio'',
                    audioBitrate = Some (if sp_get api parsed ''quality'' = Some ''128''
                                         then ''128'' else ''auto'')\<rparr>
              else \<lparr>mediaType = ''video'',
                    quality = (case sp_get api parsed ''quality'' of
                                 None \<Rightarrow> ''best''
                               | Some q \<Rightarrow> if q \<in> set [''best'', ''8k'', ''4k'', ''2k'', ''1080'',
                                                        ''720'', ''480'', ''360'']
                                           then q else ''best''),
                    audioBitrate = None\<rparr>)"
    unfolding parseEnqueueOptions_cases[symmetric] by blast
next
  assume "\<forall>u k. k \<noteq> ''media'' \<and> k \<noteq> ''quality'' \<longrightarrow> g u k = sp_get api u k"
  then show "(parseExternalDeepLink (api\<lparr>sp_get := g\<rparr>) safe r = None)
          = (parseExternalDeepLink api safe r = None)"
    by (rule rejection_ignores_media_quality)
qed

lemma laws_strip:
  assumes laws: "url_laws api" and p: "url_new api u = Some p"
  defines "q \<equiv> sp_delete api (sp_delete api p ''list'') ''index''"
  shows "url_new api (url_toString api q) = Some q"
    and "url_hostname api q = url_hostname api p"
    and "sp_has api q ''v'' = sp_has api p ''v''"
    and "sp_delete api (sp_delete api q ''list'') ''index'' = q"
proof -
  from laws have
    rt: "\<forall>s w. url_new api s = Some w \<longrightarrow> url_new api (url_toString api w) = Some w" and
    cl: "\<forall>s w n. url_new api s = Some w \<longrightarrow> (\<exists>s'. url_new api s' = Some (sp_delete api w n))" and
    ho: "\<forall>w n. url_hostname api (sp_delete api w n) = url_hostname api w" and
    ha: "\<forall>w n k. sp_has api (sp_delete api w n) k = (sp_has api w k \<and> k \<noteq> n)" and
    id: "\<forall>w n. sp_delete api (sp_delete api w n) n = sp_delete api w n" and
    co: "\<forall>w n m. sp_delete api (sp_delete api w n) m = sp_delete api (sp_delete api w m) n"
    unfolding url_laws_def by simp_all
  from cl p obtain s1 where s1: "url_new api s1 = Some (sp_delete api p ''list'')" by blast
  from cl s1 obtain s2 where s2: "url_new api s2 = Some q" unfolding q_def by blast
  from rt s2 show "url_new api (url_toString api q) = Some q" by blast
  show "url_hostname api q = url_hostname api p" by (simp add: q_def ho)
  show "sp_has api q ''v'' = sp_has api p ''v''" by (simp add: q_def ha)
  have "sp_delete api (sp_delete api q ''list'') ''index''
        = sp_delete api (sp_delete api (sp_delete api (sp_delete api p ''list'') ''list'') ''index'') ''index''"
    unfolding q_def using co by simp
  also have "\<dots> = q" unfolding q_def by (simp add: id)
  finally show "sp_delete api (sp_delete api q ''list'') ''index'' = q" .
qed


lemma normalize_Some:
  assumes "url_new api u = Some p"
  shows "normalizeExternalVideoUrl api u =
     (if isYouTubeHost (toLowerCase (url_hostname api p))
         \<and> (sp_has api p ''v'' \<or> toLowerCase (url_hostname api p) = ''youtu.be'')
      then url_toString api (sp_delete api (sp_delete api p ''list'') ''index'')
      else url_toString api p)"
  using assms by (simp add: normalizeExternalVideoUrl_def Let_def)

lemma normalize_twice:
  assumes laws: "url_laws api"
  shows "normalizeExternalVideoUrl api (normalizeExternalVideoUrl api u)
          = normalizeExternalVideoUrl api u"
proof (cases "url_new api u")
  case None
  then show ?thesis by (simp add: normalizeExternalVideoUrl_def)
next
  case (Some p)
  from laws have
    "\<forall>s w. url_new api s = Some w \<longrightarrow> url_new api (url_toString api w) = Some w"
    unfolding url_laws_def by simp
  with Some have rt: "url_new api (url_toString api p) = Some p" by blast
  define q where "q = sp_delete api (sp_delete api p ''list'') ''index''"
  note st = laws_strip[OF laws Some, folded q_def]
  show ?thesis
  proof (cases "isYouTubeHost (toLowerCase (url_hostname api p))
         \<and> (sp_has api p ''v'' \<or> toLowerCase (url_hostname api p) = ''youtu.be'')")
    case True
    have 1: "normalizeExternalVideoUrl api u = url_toString api q"
      unfolding normalize_Some[OF Some] q_def using True by simp
    have "normalizeExternalVideoUrl api (url_toString api q) = url_toString api q"
      unfolding normalize_Some[OF st(1)] st(2) st(3) st(4) using True by simp
    with 1 show ?thesis by simp
  next
    case False
    have 1: "normalizeExternalVideoUrl api u = url_toString api p"
      unfolding normalize_Some[OF Some] using False by auto
    have "normalizeExternalVideoUrl api (url_toString api p) = url_toString api p"
      unfolding normalize_Some[OF rt] using False by auto
    with 1 show ?thesis by simp
  qed
qed

text \<open>
  Idempotence of \<open>normalizeExternalVideoUrl\<close> is a property of the URL class, not of this
  code alone: for a URL whose host is not a YouTube host the function is
  \<open>new URL(u).toString()\<close>, and applying it twice gives the same string exactly when the
  serialisation parses back to an object with that serialisation. What the code adds is
  shown here, for a URL class that satisfies \<open>url_laws\<close>: the choice of branch and the two
  deletions are stable under a second application, also on the \<open>url\<close> of a request that
  \<open>parseExternalDeepLink\<close> returned. Whether the platform's URL class satisfies
  \<open>url_laws\<close> is not settled here.
\<close>

lemma normalize_fixed_under_url_laws:
  assumes "url_laws api"
  shows "normalizeExternalVideoUrl api (normalizeExternalVideoUrl api u)
           = normalizeExternalVideoUrl api u
         \<and> (\<forall>safe r req. parseExternalDeepLink api safe r = Some req \<longrightarrow>
               normalizeExternalVideoUrl api (url req) = url req)"
proof (intro conjI allI impI)
  show "normalizeExternalVideoUrl api (normalizeExternalVideoUrl api u)
           = normalizeExternalVideoUrl api u"
    using assms by (rule normalize_twice)
next
  fix safe r req
  assume "parseExternalDeepLink api safe r = Some req"
  from parse_Some_url[OF this] obtain urlParam
    where "url req = normalizeExternalVideoUrl api urlParam" by (rule rangeE)
  then show "normalizeExternalVideoUrl api (url req) = url req"
    using normalize_twice[OF assms, of urlParam] by simp
qed

lemma find_href:
  assumes "distinct (map demo_href tbl)" and "v \<in> set tbl"
  shows "find (\<lambda>w. demo_href w = demo_href v) tbl = Some v"
  using assms by (induction tbl) auto

lemma find_href_roundtrip:
  assumes "find (\<lambda>w. demo_href w = s) tbl = Some u"
  shows "find (\<lambda>w. demo_href w = demo_href u) tbl = Some u"
proof -
  from assms have "demo_href u = s" by (auto simp: find_Some_iff)
  with assms show ?thesis by simp
qed

lemma find_in_table: "find P tbl = Some u \<Longrightarrow> u \<in> set tbl"
  by (induction tbl) (auto split: if_splits)

lemma map_of_filter_key:
  "(map_of (filter (\<lambda>kv. fst kv \<noteq> n) ps) k \<noteq> None) = (map_of ps k \<noteq> None \<and> k \<noteq> n)"
  by (induction ps) auto

lemma short_links_distinct: "distinct (map demo_href short_link_urls)"
  by (simp add: short_link_urls_def short_link_def demo_href_def)

lemma short_links_closed:
  assumes "u \<in> set short_link_urls"
  shows "demo_delete u n \<in> set short_link_urls"
proof -
  consider "n = ''list''" | "n = ''index''" | "n \<noteq> ''list'' \<and> n \<noteq> ''index''" by blast
  then show ?thesis
  proof cases
    case 1
    with assms show ?thesis
      by (auto simp: short_link_urls_def short_link_def demo_delete_def)
  next
    case 2
    with assms show ?thesis
      by (auto simp: short_link_urls_def short_link_def demo_delete_def)
  next
    case 3
    with assms show ?thesis
      by (auto simp: short_link_urls_def short_link_def demo_delete_def)
  qed
qed

lemma short_link_laws: "url_laws short_link_api"
  unfolding url_laws_def
proof (intro conjI allI impI)
  fix s u
  assume "url_new short_link_api s = Some u"
  then show "url_new short_link_api (url_toString short_link_api u) = Some u"
    by (simp add: short_link_api_def table_api_def find_href_roundtrip)
next
  fix s u n
  assume "url_new short_link_api s = Some u"
  then have "u \<in> set short_link_urls"
    by (simp add: short_link_api_def table_api_def find_in_table)
  then have "demo_delete u n \<in> set short_link_urls" by (rule short_links_closed)
  with short_links_distinct
  have "find (\<lambda>w. demo_href w = demo_href (demo_delete u n)) short_link_urls
          = Some (demo_delete u n)"
    by (rule find_href)
  then show "\<exists>s'. url_new short_link_api s' = Some (sp_delete short_link_api u n)"
    by (auto simp: short_link_api_def table_api_def)
next
  fix u n
  show "url_hostname short_link_api (sp_delete short_link_api u n) = url_hostname short_link_api u"
    by (simp add: short_link_api_def table_api_def demo_delete_def)
next
  fix u n k
  show "sp_has short_link_api (sp_delete short_link_api u n) k = (sp_has short_link_api u k \<and> k \<noteq> n)"
    using map_of_filter_key[of n "d_params u" k]
    by (simp add: short_link_api_def table_api_def demo_delete_def)
next
  fix u n
  show "sp_delete short_link_api (sp_delete short_link_api u n) n = sp_delete short_link_api u n"
    by (simp add: short_link_api_def table_api_def demo_delete_def)
next
  fix u n m
  show "sp_delete short_link_api (sp_delete short_link_api u n) m
          = sp_delete short_link_api (sp_delete short_link_api u m) n"
    by (simp add: short_link_api_def table_api_def demo_delete_def conj_commute)
qed

lemma short_link_normalized:
  "normalizeExternalVideoUrl short_link_api ''https://youtu.be/abc?list=PL1&index=2''
     = ''https://youtu.be/abc''"
  by code_simp

lemma short_link_normalize_fixed:
  "normalizeExternalVideoUrl short_link_api ''https://youtu.be/abc?list=PL1&index=2''
     = ''https://youtu.be/abc''
   \<and> normalizeExternalVideoUrl short_link_api ''https://youtu.be/abc'' = ''https://youtu.be/abc''"
  using normalize_fixed_under_url_laws[OF short_link_laws,
      of "''https://youtu.be/abc?list=PL1&index=2''"]
    short_link_normalized
  by simp

lemma demo_parse_audio:
  "parseExternalDeepLink demo_api (\<lambda>u. True)
     ''youwee://download?v=1&url=https://youtube.com/watch?v=abc123&media=audio&quality=128''
   = Some \<lparr>raw = ''youwee://download?v=1&url=https://youtube.com/watch?v=abc123&media=audio&quality=128'',
            url = ''https://youtube.com/watch?v=abc123'', target = TargetAuto,
            action = DownloadNow,
            enqueueOptions = \<lparr>mediaType = ''audio'', quality = ''audio'',
                               audioBitrate = Some ''128''\<rparr>,
            source = None\<rparr>"
  by code_simp

lemma demo_parse_unknown_quality:
  "parseExternalDeepLink demo_api (\<lambda>u. True)
     ''youwee://download?v=1&url=https://youtube.com/watch?v=abc123&quality=4320p''
   = Some \<lparr>raw = ''youwee://download?v=1&url=https://youtube.com/watch?v=abc123&quality=4320p'',
            url = ''https://youtube.com/watch?v=abc123'', target = TargetAuto,
            action = DownloadNow,
            enqueueOptions = \<lparr>mediaType = ''video'', quality = ''best'', audioBitrate = None\<rparr>,
            source = None\<rparr>"
  by code_simp

theorem enqueue_options_of_deep_link_witness:
  "(\<exists>parsed. url_new demo_api
        ''youwee://download?v=1&url=https://youtube.com/watch?v=abc123&media=audio&quality=128''
        = Some parsed
      \<and> sp_get demo_api parsed ''media'' = Some ''audio''
      \<and> sp_get demo_api parsed ''quality'' = Some ''128'')
   \<and> parseExternalDeepLink
        (demo_api\<lparr>sp_get := \<lambda>u k. if k = ''quality'' then Some ''4320p'' else sp_get demo_api u k\<rparr>)
        (\<lambda>u. True)
        ''youwee://download?v=1&url=https://youtube.com/watch?v=abc123&media=audio&quality=128''
       \<noteq> None"
proof -
  let ?r = "''youwee://download?v=1&url=https://youtube.com/watch?v=abc123&media=audio&quality=128''"
  let ?g = "\<lambda>u k. if k = ''quality'' then Some ''4320p'' else sp_get demo_api u k"
  note inst = enqueue_options_of_deep_link[of demo_api "\<lambda>u. True" ?r _ ?g]
  from inst demo_parse_audio obtain parsed where
    p: "url_new demo_api ?r = Some parsed" and
    e: "\<lparr>mediaType = ''audio'', quality = ''audio'', audioBitrate = Some ''128''\<rparr> =
             (if sp_get demo_api parsed ''media'' = Some ''audio''
              then \<lparr>mediaType = ''audio'', quality = ''audio'',
                    audioBitrate = Some (if sp_get demo_api parsed ''quality'' = Some ''128''
                                         then ''128'' else ''auto'')\<rparr>
              else \<lparr>mediaType = ''video'',
                    quality = (case sp_get demo_api parsed ''quality'' of
                                 None \<Rightarrow> ''best''
                               | Some q \<Rightarrow> if q \<in> set [''best'', ''8k'', ''4k'', ''2k'', ''1080'',
                                                        ''720'', ''480'', ''360'']
                                           then q else ''best''),
                    audioBitrate = None\<rparr>)"
    by fastforce
  from e have "sp_get demo_api parsed ''media'' = Some ''audio''
      \<and> sp_get demo_api parsed ''quality'' = Some ''128''"
    by (simp split: if_splits)
  moreover have "(parseExternalDeepLink (demo_api\<lparr>sp_get := ?g\<rparr>) (\<lambda>u. True) ?r = None)
          = (parseExternalDeepLink demo_api (\<lambda>u. True) ?r = None)"
    using inst by simp
  ultimately show ?thesis using p demo_parse_audio by simp
qed

section \<open>Verification: retry settings and error messages\<close>

lemma clamp_attempts_eq:
  "\<not> falsy x \<Longrightarrow> clampAutoRetryMaxAttempts (Some x) = clamp_into 1 10 x"
  by (cases x) (auto simp: clampAutoRetryMaxAttempts_def AUTO_RETRY_LIMITS_maxAttempts_def
      or_default_def falsy_def)

lemma clamp_delay_eq:
  "\<not> falsy x \<Longrightarrow> clampAutoRetryDelaySeconds (Some x) = clamp_into 1 60 x"
  by (cases x) (auto simp: clampAutoRetryDelaySeconds_def AUTO_RETRY_LIMITS_delaySeconds_def
      or_default_def falsy_def)

lemma clamp_defaults:
  "v = None \<or> (\<exists>x. v = Some x \<and> falsy x) \<Longrightarrow>
     clampAutoRetryMaxAttempts v = Finite 3 \<and> clampAutoRetryDelaySeconds v = Finite 5"
  by (auto simp: clampAutoRetryMaxAttempts_def AUTO_RETRY_LIMITS_maxAttempts_def
      clampAutoRetryDelaySeconds_def AUTO_RETRY_LIMITS_delaySeconds_def or_default_def)

lemma clamp_into_range:
  "x \<noteq> NaN \<Longrightarrow> lo \<le> hi \<Longrightarrow> \<exists>a. clamp_into lo hi x = Finite a \<and> lo \<le> a \<and> a \<le> hi"
  by (cases x) auto

lemma clamp_ranges:
  "(\<exists>a. clampAutoRetryMaxAttempts v = Finite a \<and> 1 \<le> a \<and> a \<le> 10)
   \<and> (\<exists>d. clampAutoRetryDelaySeconds v = Finite d \<and> 1 \<le> d \<and> d \<le> 60)"
proof (cases "v = None \<or> (\<exists>x. v = Some x \<and> falsy x)")
  case True
  from clamp_defaults[OF True] show ?thesis by simp
next
  case False
  then obtain x where v: "v = Some x" and nf: "\<not> falsy x" by (cases v) auto
  from nf have "x \<noteq> NaN" by (auto simp: falsy_def)
  then show ?thesis
    using clamp_into_range[of x 1 10] clamp_into_range[of x 1 60]
    by (simp add: v clamp_attempts_eq[OF nf] clamp_delay_eq[OF nf])
qed

text \<open>
  C6: both functions return their default (3 attempts, 5 seconds) when the value is falsy
  (zero, NaN, \<open>undefined\<close>) and otherwise the value clamped into \<open>[1, 10]\<close> and \<open>[1, 60]\<close>;
  the result is always a finite number in the range, so never zero or negative;
  \<open>clampAutoRetryMaxAttempts(0) = 3\<close> and \<open>clampAutoRetryMaxAttempts(999) = 10\<close>.
\<close>

theorem clamp_retry_settings:
  "(v = None \<or> (\<exists>x. v = Some x \<and> falsy x) \<longrightarrow>
      clampAutoRetryMaxAttempts v = Finite 3 \<and> clampAutoRetryDelaySeconds v = Finite 5)
   \<and> (\<forall>x. v = Some x \<and> \<not> falsy x \<longrightarrow>
         clampAutoRetryMaxAttempts v = clamp_into 1 10 x
         \<and> clampAutoRetryDelaySeconds v = clamp_into 1 60 x)
   \<and> (\<exists>a. clampAutoRetryMaxAttempts v = Finite a \<and> 1 \<le> a \<and> a \<le> 10)
   \<and> (\<exists>d. clampAutoRetryDelaySeconds v = Finite d \<and> 1 \<le> d \<and> d \<le> 60)
   \<and> clampAutoRetryMaxAttempts (Some (Finite 0)) = Finite 3
   \<and> clampAutoRetryMaxAttempts (Some (Finite 999)) = Finite 10"
proof (intro conjI allI impI)
  assume "v = None \<or> (\<exists>x. v = Some x \<and> falsy x)"
  from clamp_defaults[OF this]
  show "clampAutoRetryMaxAttempts v = Finite 3" and "clampAutoRetryDelaySeconds v = Finite 5"
    by simp_all
next
  fix x assume "v = Some x \<and> \<not> falsy x"
  then show "clampAutoRetryMaxAttempts v = clamp_into 1 10 x"
    and "clampAutoRetryDelaySeconds v = clamp_into 1 60 x"
    by (simp_all add: clamp_attempts_eq clamp_delay_eq)
next
  show "\<exists>a. clampAutoRetryMaxAttempts v = Finite a \<and> 1 \<le> a \<and> a \<le> 10"
    and "\<exists>d. clampAutoRetryDelaySeconds v = Finite d \<and> 1 \<le> d \<and> d \<le> 60"
    using clamp_ranges[of v] by simp_all
next
  show "clampAutoRetryMaxAttempts (Some (Finite 0)) = Finite 3"
    by (simp add: clampAutoRetryMaxAttempts_def AUTO_RETRY_LIMITS_maxAttempts_def
        or_default_def falsy_def)
  show "clampAutoRetryMaxAttempts (Some (Finite 999)) = Finite 10"
    by (simp add: clampAutoRetryMaxAttempts_def AUTO_RETRY_LIMITS_maxAttempts_def
        or_default_def falsy_def)
qed

theorem clamp_retry_settings_witness:
  "clampAutoRetryMaxAttempts (Some NaN) = Finite 3
   \<and> clampAutoRetryDelaySeconds (Some NaN) = Finite 5
   \<and> clampAutoRetryMaxAttempts (Some (Finite (-2))) = Finite 1
   \<and> clampAutoRetryDelaySeconds (Some (Finite 7.5)) = Finite 7.5
   \<and> clampAutoRetryDelaySeconds (Some PosInf) = Finite 60"
  using clamp_retry_settings[of "Some NaN"] clamp_retry_settings[of "Some (Finite (-2))"]
    clamp_retry_settings[of "Some (Finite 7.5)"] clamp_retry_settings[of "Some PosInf"]
  by (simp add: falsy_def)

text \<open>
  C10: \<open>normalizeErrorMessage\<close> returns a string argument as it is, the empty string
  included; only a string argument can give an empty result, and a string argument is
  never replaced by \<open>Unknown error\<close>; an object whose \<open>message\<close> is a blank or whitespace-only
  string gets the generic string conversion, not that message.
\<close>

theorem normalize_error_message_strings:
  "normalizeErrorMessage (JString s) = Returns s
   \<and> normalizeErrorMessage (JString []) = Returns []
   \<and> (normalizeErrorMessage v = Returns [] \<longrightarrow> v = JString [])
   \<and> ((\<forall>c \<in> set m. is_white_space c) \<longrightarrow>
        normalizeErrorMessage (JObject (MsgString m) conv) =
          (case conv of
             None \<Rightarrow> Returns ''Unknown error''
           | Some r \<Rightarrow> Returns (if r = [] then ''Unknown error'' else r)))"
proof (intro conjI impI)
  show "normalizeErrorMessage (JString s) = Returns s" by simp
  show "normalizeErrorMessage (JString []) = Returns []" by simp
next
  assume r: "normalizeErrorMessage v = Returns []"
  have nonempty: "\<And>conv. string_conversion conv \<noteq> Returns []"
    by (simp add: string_conversion_def split: option.splits)
  have blank: "trim [] = []" by (simp add: trim_def)
  show "v = JString []"
  proof (cases v)
    case (JString s)
    with r show ?thesis by simp
  next
    case (JObject mp conv)
    with r nonempty[of conv] blank show ?thesis
      by (cases mp) (auto split: if_splits)
  next
    case (JOther conv)
    with r nonempty[of conv] show ?thesis by simp
  qed
next
  assume "\<forall>c \<in> set m. is_white_space c"
  then have "trim m = []" by (simp add: trim_empty_iff)
  then show "normalizeErrorMessage (JObject (MsgString m) conv) =
          (case conv of
             None \<Rightarrow> Returns ''Unknown error''
           | Some r \<Rightarrow> Returns (if r = [] then ''Unknown error'' else r))"
    by (simp add: string_conversion_def)
qed

lemma blank_message: "\<forall>c \<in> set '' ''. is_white_space c"
  by (simp add: is_white_space_def code_unit_def)

theorem normalize_error_message_strings_witness:
  "normalizeErrorMessage (JObject (MsgString '' '') (Some ''[object Object]''))
     = Returns ''[object Object]''
   \<and> normalizeErrorMessage (JObject (MsgString '' '') None) = Returns ''Unknown error''
   \<and> normalizeErrorMessage (JOther (Some ''undefined'')) \<noteq> Returns []"
  using normalize_error_message_strings[of _ _ "'' ''" "Some ''[object Object]''"]
    normalize_error_message_strings[of _ _ "'' ''" None]
    normalize_error_message_strings[of _ "JOther (Some ''undefined'')"]
    blank_message
  by auto

section \<open>Verification: cancellable wait\<close>

lemma rounds_0: "rounds observed n 0 = []"
  by (simp add: rounds_def)

lemma rounds_Suc:
  "rounds observed (Suc m) (Suc j) =
     [Poll False] @ (if observed then [Tick (Suc m)] else []) @ [Sleep] @ rounds observed m j"
proof -
  have "[0..<Suc j] = 0 # [Suc 0..<Suc j]"
    by (rule upt_conv_Cons) simp
  also have "[Suc 0..<Suc j] = map Suc [0..<j]"
    by (rule map_Suc_upt[symmetric])
  finally show ?thesis
    by (simp add: rounds_def comp_def del: upt_Suc)
qed

lemma countdown_trace:
  "\<exists>j \<le> m. (\<forall>k < j. \<not> c (k0 + k)) \<and> (j < m \<longrightarrow> c (k0 + j))
      \<and> countdown (rec_isCancelled c) (if observed then Some rec_onTick else None) rec_sleep
            m (k0, tr)
         = (\<not> c (k0 + j), (Suc (k0 + j), tr @ rounds observed m j @ [Poll (c (k0 + j))]))"
proof (induction m arbitrary: k0 tr)
  case 0
  show ?case by (simp add: rec_isCancelled_def rounds_0)
next
  case (Suc m)
  show ?case
  proof (cases "c k0")
    case True
    then have "countdown (rec_isCancelled c) (if observed then Some rec_onTick else None) rec_sleep
            (Suc m) (k0, tr) = (False, (Suc k0, tr @ [Poll True]))"
      by (simp add: rec_isCancelled_def)
    with True show ?thesis
      by (intro exI[of _ 0]) (simp add: rounds_0)
  next
    case False
    let ?tr = "tr @ [Poll False] @ (if observed then [Tick (Suc m)] else []) @ [Sleep]"
    from False have step:
      "countdown (rec_isCancelled c) (if observed then Some rec_onTick else None) rec_sleep
            (Suc m) (k0, tr)
       = countdown (rec_isCancelled c) (if observed then Some rec_onTick else None) rec_sleep
            m (Suc k0, ?tr)"
      by (simp add: rec_isCancelled_def rec_onTick_def rec_sleep_def)
    from Suc.IH[of "Suc k0" ?tr] obtain j where
      j: "j \<le> m" and before: "\<forall>k < j. \<not> c (Suc k0 + k)" and at: "j < m \<longrightarrow> c (Suc k0 + j)"
      and run: "countdown (rec_isCancelled c) (if observed then Some rec_onTick else None) rec_sleep
            m (Suc k0, ?tr)
         = (\<not> c (Suc k0 + j), (Suc (Suc k0 + j), ?tr @ rounds observed m j @ [Poll (c (Suc k0 + j))]))"
      by blast
    have b: "\<forall>k < Suc j. \<not> c (k0 + k)"
    proof (intro allI impI)
      fix k assume "k < Suc j"
      then show "\<not> c (k0 + k)" using False before by (cases k) auto
    qed
    have res: "countdown (rec_isCancelled c) (if observed then Some rec_onTick else None) rec_sleep
            (Suc m) (k0, tr)
         = (\<not> c (k0 + Suc j),
            (Suc (k0 + Suc j), tr @ rounds observed (Suc m) (Suc j) @ [Poll (c (k0 + Suc j))]))"
      unfolding step run rounds_Suc by simp
    show ?thesis
    proof (intro exI[of _ "Suc j"] conjI)
      show "Suc j \<le> Suc m" using j by simp
      show "\<forall>k < Suc j. \<not> c (k0 + k)" by (rule b)
      show "Suc j < Suc m \<longrightarrow> c (k0 + Suc j)" using at by simp
      show "countdown (rec_isCancelled c) (if observed then Some rec_onTick else None) rec_sleep
            (Suc m) (k0, tr)
         = (\<not> c (k0 + Suc j),
            (Suc (k0 + Suc j), tr @ rounds observed (Suc m) (Suc j) @ [Poll (c (k0 + Suc j))]))"
        by (rule res)
    qed
  qed
qed

lemma totalSeconds_ceiling: "totalSeconds ms = nat \<lceil>ms / 1000\<rceil>"
  by (simp add: totalSeconds_def)

lemma totalSeconds_pos: "0 < ms \<Longrightarrow> 0 < totalSeconds ms"
  by (simp add: totalSeconds_def)

lemma wait_trace:
  "\<exists>j \<le> totalSeconds ms. (\<forall>k < j. \<not> c k) \<and> (j < totalSeconds ms \<longrightarrow> c j)
      \<and> waitWithCancellation ms (rec_isCancelled c) (if observed then Some rec_onTick else None)
            rec_sleep (0, [])
         = (\<not> c j, (Suc j, rounds observed (totalSeconds ms) j @ [Poll (c j)]))"
  using countdown_trace[of "totalSeconds ms" c 0 observed "[]"]
  by (simp add: waitWithCancellation_def)

lemma wait_result:
  "fst (waitWithCancellation ms (rec_isCancelled c) (if observed then Some rec_onTick else None)
          rec_sleep (0, []))
     = (\<forall>k \<le> totalSeconds ms. \<not> c k)"
proof -
  from wait_trace[of ms c observed] obtain j where
    j: "j \<le> totalSeconds ms" and before: "\<forall>k < j. \<not> c k" and at: "j < totalSeconds ms \<longrightarrow> c j"
    and run: "waitWithCancellation ms (rec_isCancelled c) (if observed then Some rec_onTick else None)
            rec_sleep (0, [])
         = (\<not> c j, (Suc j, rounds observed (totalSeconds ms) j @ [Poll (c j)]))"
    by blast
  have "(\<not> c j) = (\<forall>k \<le> totalSeconds ms. \<not> c k)"
  proof
    assume nc: "\<not> c j"
    with at j have eq: "j = totalSeconds ms" by auto
    show "\<forall>k \<le> totalSeconds ms. \<not> c k"
    proof (intro allI impI)
      fix k assume "k \<le> totalSeconds ms"
      then have "k < j \<or> k = j" using eq by auto
      then show "\<not> c k" using before nc by auto
    qed
  next
    assume "\<forall>k \<le> totalSeconds ms. \<not> c k"
    then show "\<not> c j" using j by simp
  qed
  then show ?thesis by (simp add: run)
qed

lemma ticks_of_rounds: "ticks_of (rounds True n j) = map (\<lambda>i. n - i) [0..<j]"
  by (induction j) (simp_all add: rounds_def ticks_of_def)

lemma wait_3000:
  "waitWithCancellation 3000 (rec_isCancelled (\<lambda>k. 1 \<le> k)) (Some rec_onTick) rec_sleep (0, [])
     = (False, (2, [Poll False, Tick 3, Sleep, Poll True]))"
  by (simp add: waitWithCancellation_def totalSeconds_def rec_isCancelled_def rec_onTick_def
      rec_sleep_def eval_nat_numeral)

text \<open>
  C5: the count of seconds is the duration divided by 1000 and rounded up (never below
  zero), so any positive duration waits at least one second. In a world that records its
  events, with the \<open>k\<close>-th poll answering \<open>c k\<close>: the function runs \<open>j\<close> rounds of poll, tick (when
  an observer is supplied, with the seconds that remain) and sleep, where \<open>j\<close> is the first
  cancelled poll or the count of seconds, then polls once more and returns whether that
  last poll was not cancelled; it returns true exactly when none of the polls \<open>0\<close> to
  \<open>totalSeconds ms\<close> was cancelled. A wait of 3000 ms cancelled from the second poll on
  returns false after one tick.
\<close>

theorem wait_with_cancellation_polls:
  "totalSeconds ms = nat \<lceil>ms / 1000\<rceil>
   \<and> (0 < ms \<longrightarrow> 0 < totalSeconds ms)
   \<and> (\<exists>j \<le> totalSeconds ms. (\<forall>k < j. \<not> c k) \<and> (j < totalSeconds ms \<longrightarrow> c j)
        \<and> waitWithCancellation ms (rec_isCancelled c)
              (if observed then Some rec_onTick else None) rec_sleep (0, [])
           = (\<not> c j, (Suc j, rounds observed (totalSeconds ms) j @ [Poll (c j)])))
   \<and> fst (waitWithCancellation ms (rec_isCancelled c)
              (if observed then Some rec_onTick else None) rec_sleep (0, []))
       = (\<forall>k \<le> totalSeconds ms. \<not> c k)
   \<and> ticks_of (rounds True (totalSeconds ms) i) = map (\<lambda>r. totalSeconds ms - r) [0..<i]
   \<and> waitWithCancellation 3000 (rec_isCancelled (\<lambda>k. 1 \<le> k)) (Some rec_onTick) rec_sleep (0, [])
       = (False, (2, [Poll False, Tick 3, Sleep, Poll True]))
   \<and> length (ticks_of [Poll False, Tick 3, Sleep, Poll True]) \<le> 2"
proof (intro conjI)
  show "totalSeconds ms = nat \<lceil>ms / 1000\<rceil>" by (rule totalSeconds_ceiling)
  show "0 < ms \<longrightarrow> 0 < totalSeconds ms" by (simp add: totalSeconds_pos)
  show "\<exists>j \<le> totalSeconds ms. (\<forall>k < j. \<not> c k) \<and> (j < totalSeconds ms \<longrightarrow> c j)
        \<and> waitWithCancellation ms (rec_isCancelled c)
              (if observed then Some rec_onTick else None) rec_sleep (0, [])
           = (\<not> c j, (Suc j, rounds observed (totalSeconds ms) j @ [Poll (c j)]))"
    by (rule wait_trace)
  show "fst (waitWithCancellation ms (rec_isCancelled c)
              (if observed then Some rec_onTick else None) rec_sleep (0, []))
       = (\<forall>k \<le> totalSeconds ms. \<not> c k)"
    by (rule wait_result)
  show "ticks_of (rounds True (totalSeconds ms) i) = map (\<lambda>r. totalSeconds ms - r) [0..<i]"
    by (rule ticks_of_rounds)
  show "waitWithCancellation 3000 (rec_isCancelled (\<lambda>k. 1 \<le> k)) (Some rec_onTick) rec_sleep (0, [])
       = (False, (2, [Poll False, Tick 3, Sleep, Poll True]))"
    by (rule wait_3000)
  show "length (ticks_of [Poll False, Tick 3, Sleep, Poll True]) \<le> 2"
    by (simp add: ticks_of_def)
qed

lemma totalSeconds_2500: "totalSeconds 2500 = 3"
  by (simp add: totalSeconds_def)

lemma ceiling_1ms: "\<lceil>(1::real) / 1000\<rceil> = 1"
  by (rule ceiling_unique) simp_all

lemma rounds_3:
  "rounds True 3 3 = [Poll False, Tick 3, Sleep, Poll False, Tick 2, Sleep, Poll False, Tick 1, Sleep]"
  by (simp add: rounds_def eval_nat_numeral upt_rec)

theorem wait_with_cancellation_polls_witness:
  "waitWithCancellation 2500 (rec_isCancelled (\<lambda>k. False)) (Some rec_onTick) rec_sleep (0, [])
     = (True, (4, [Poll False, Tick 3, Sleep, Poll False, Tick 2, Sleep, Poll False, Tick 1, Sleep,
                   Poll False]))
   \<and> totalSeconds 1 = 1"
proof
  from wait_with_cancellation_polls[of 2500 "\<lambda>k. False" True]
  obtain j where j: "j \<le> totalSeconds 2500" and at: "j < totalSeconds 2500 \<longrightarrow> False"
    and run: "waitWithCancellation 2500 (rec_isCancelled (\<lambda>k. False))
              (if True then Some rec_onTick else None) rec_sleep (0, [])
           = (\<not> False, (Suc j, rounds True (totalSeconds 2500) j @ [Poll False]))"
    by blast
  from j at have "j = 3" by (simp add: totalSeconds_2500)
  with run show "waitWithCancellation 2500 (rec_isCancelled (\<lambda>k. False)) (Some rec_onTick) rec_sleep (0, [])
     = (True, (4, [Poll False, Tick 3, Sleep, Poll False, Tick 2, Sleep, Poll False, Tick 1, Sleep,
                   Poll False]))"
    by (simp add: totalSeconds_2500 rounds_3)
  from wait_with_cancellation_polls[of 1] show "totalSeconds 1 = 1"
    by (simp add: ceiling_1ms)
qed

end
